theory Spec2Isabelle
  imports Complex_Main
begin

section \<open>The mock database of the Writely prototype\<close>

text \<open>
  The prototype keeps everything in one JSON document under the localStorage key
  \<open>writely_db_v1\<close>: four arrays \<open>users\<close>, \<open>tasks\<close>, \<open>bids\<close>, \<open>payments\<close>. Every handler
  reads the whole document with \<open>getDB()\<close>, mutates the parsed copy and writes it back with
  one \<open>saveDB(db)\<close>. The model passes the parsed document in and returns the saved one.

  A role is one of the two values of the registration form's radio buttons.
  Identifiers are strings. The clock is an input: a handler takes one natural number (of
  milliseconds) for each \<open>Date.now()\<close> it evaluates.
  The amount of a bid is \<open>Number(amount)\<close> of a text field; the model takes the converted
  number.
\<close>

datatype role = Student | Tutor

text \<open>
  A JavaScript number, as \<open>Number\<close> returns it: a finite double, given by the rational it
  denotes (negative zero is zero), or one of \<open>NaN\<close>, \<open>Infinity\<close>, \<open>-Infinity\<close>.
  \<open>saveDB\<close> writes the store with \<open>JSON.stringify\<close>: a finite number is written as digits that
  \<open>JSON.parse\<close> reads back as the same number, the three others are written as \<open>null\<close>.
  A stored amount is therefore a rational or \<open>null\<close> (\<open>None\<close>).
\<close>

datatype number = Finite rat | NaN | Infinity | NegInfinity

fun saved_number :: "number \<Rightarrow> rat option" where
  "saved_number (Finite r) = Some r"
| "saved_number NaN = None"
| "saved_number Infinity = None"
| "saved_number NegInfinity = None"

record account =
  a_id :: string
  a_name :: string
  a_email :: string
  a_password :: string
  a_role :: role

record user =
  u_id :: string
  u_name :: string
  u_email :: string
  u_role :: role

record bid =
  b_id :: string
  b_taskId :: string
  b_tutorId :: string
  b_tutorName :: string
  b_amount :: "rat option"
  b_message :: string
  b_createdAt :: nat

record task =
  t_id :: string
  t_title :: string
  t_description :: string
  t_studentId :: string
  t_studentName :: string
  t_dueDate :: string
  t_budget :: string
  t_acceptedBid :: "bid option"

record payment =
  p_id :: string
  p_taskId :: string
  p_amount :: "rat option"
  p_studentPaid :: bool
  p_createdAt :: nat
  p_paidAt :: "nat option"

record db =
  users :: "account list"
  tasks :: "task list"
  bids :: "bid list"
  payments :: "payment list"

record regform =
  r_name :: string
  r_email :: string
  r_password :: string
  r_role :: role

record taskform =
  f_title :: string
  f_description :: string
  f_dueDate :: string
  f_budget :: string

text \<open>
  What a handler does instead of saving: \<open>register\<close> throws \<open>Email already in use\<close>; \<open>submit\<close>
  and \<open>submitBid\<close> alert \<open>Please login as a student to post tasks\<close> and
  \<open>Please login as a tutor to bid\<close> and return; \<open>accept\<close> and \<open>pay\<close> assign to a property of
  the result of \<open>Array.prototype.find\<close>, which is a TypeError when nothing was found.
\<close>

datatype error = EmailInUse | LoginAsStudent | LoginAsTutor | TypeError

subsection \<open>getDB and the seed\<close>

definition seed :: db where
  "seed = \<lparr>users = [], tasks = [], bids = [], payments = []\<rparr>"

text \<open>\<open>getDB\<close>: the stored document, or the seed when the key is absent (the seed is then
  also stored, which no later read can tell from the absent key).\<close>

definition getDB :: "db option \<Rightarrow> db" where
  "getDB raw = (case raw of None \<Rightarrow> seed | Some d \<Rightarrow> d)"

subsection \<open>Identifiers: a prefix and the decimal digits of the clock\<close>

definition digit :: "nat \<Rightarrow> char" where
  "digit d = ''0123456789'' ! d"

text \<open>The string JavaScript concatenates for a non-negative integer: its decimal digits.\<close>

function string_of_nat :: "nat \<Rightarrow> string" where
  "string_of_nat n =
     (if n < 10 then [digit n] else string_of_nat (n div 10) @ [digit (n mod 10)])"
  by pat_completeness auto
termination
  by (relation "measure (\<lambda>n. n)") auto

declare string_of_nat.simps [simp del]

subsection \<open>In-place mutation of the element that find returned\<close>

text \<open>\<open>const t = xs.find(P); t.field = v\<close> changes the first element of \<open>xs\<close> that satisfies
  \<open>P\<close> and no other.\<close>

fun update_first :: "('a \<Rightarrow> bool) \<Rightarrow> ('a \<Rightarrow> 'a) \<Rightarrow> 'a list \<Rightarrow> 'a list" where
  "update_first P f [] = []"
| "update_first P f (x # xs) = (if P x then f x # xs else x # update_first P f xs)"

subsection \<open>The handlers that save\<close>

text \<open>\<open>AuthProvider.register\<close>.\<close>

definition register :: "regform \<Rightarrow> nat \<Rightarrow> db \<Rightarrow> error + db" where
  "register form now d =
     (case find (\<lambda>u. a_email u = r_email form) (users d) of
        Some u \<Rightarrow> Inl EmailInUse
      | None \<Rightarrow>
          Inr (d\<lparr>users := users d @
                 [\<lparr>a_id = ''u_'' @ string_of_nat now, a_name = r_name form,
                   a_email = r_email form, a_password = r_password form,
                   a_role = r_role form\<rparr>]\<rparr>))"

text \<open>\<open>PostTaskCard.submit\<close>.\<close>

definition submit :: "user option \<Rightarrow> taskform \<Rightarrow> nat \<Rightarrow> db \<Rightarrow> error + db" where
  "submit usr form now d =
     (case usr of
        None \<Rightarrow> Inl LoginAsStudent
      | Some u \<Rightarrow>
          if u_role u \<noteq> Student then Inl LoginAsStudent
          else Inr (d\<lparr>tasks := tasks d @
                 [\<lparr>t_id = ''t_'' @ string_of_nat now, t_title = f_title form,
                   t_description = f_description form, t_studentId = u_id u,
                   t_studentName = u_name u, t_dueDate = f_dueDate form,
                   t_budget = f_budget form, t_acceptedBid = None\<rparr>]\<rparr>))"

text \<open>\<open>BidForm.submitBid\<close>; \<open>tsk\<close> is the component's \<open>task\<close> property and \<open>amount\<close> the value
  of \<open>Number(amount)\<close>. The clock is read twice, for the id and for \<open>createdAt\<close>.\<close>

definition submitBid ::
  "user option \<Rightarrow> task \<Rightarrow> number \<Rightarrow> string \<Rightarrow> nat \<Rightarrow> nat \<Rightarrow> db \<Rightarrow> error + db" where
  "submitBid usr tsk amount message now now' d =
     (case usr of
        None \<Rightarrow> Inl LoginAsTutor
      | Some u \<Rightarrow>
          Inr (d\<lparr>bids := bids d @
                 [\<lparr>b_id = ''b_'' @ string_of_nat now, b_taskId = t_id tsk,
                   b_tutorId = u_id u, b_tutorName = u_name u,
                   b_amount = saved_number amount,
                   b_message = message, b_createdAt = now'\<rparr>]\<rparr>))"

text \<open>\<open>AcceptBidUI.accept\<close>; \<open>tsk\<close> is the component's \<open>task\<close> property, \<open>b\<close> the bid object
  the click handler passes.\<close>

definition accept :: "task \<Rightarrow> bid \<Rightarrow> nat \<Rightarrow> nat \<Rightarrow> db \<Rightarrow> error + db" where
  "accept tsk b now now' db2 =
     (case find (\<lambda>t. t_id t = t_id tsk) (tasks db2) of
        None \<Rightarrow> Inl TypeError
      | Some t \<Rightarrow>
          Inr (db2\<lparr>tasks := update_first (\<lambda>t. t_id t = t_id tsk)
                              (\<lambda>t. t\<lparr>t_acceptedBid := Some b\<rparr>) (tasks db2),
                    payments := payments db2 @
                      [\<lparr>p_id = ''p_'' @ string_of_nat now, p_taskId = t_id tsk,
                        p_amount = b_amount b, p_studentPaid = False,
                        p_createdAt = now', p_paidAt = None\<rparr>]\<rparr>))"

text \<open>\<open>PaymentsPage.pay\<close>, the part that saves.\<close>

definition pay :: "payment \<Rightarrow> nat \<Rightarrow> db \<Rightarrow> error + db" where
  "pay pmt now d =
     (case find (\<lambda>x. p_id x = p_id pmt) (payments d) of
        None \<Rightarrow> Inl TypeError
      | Some p \<Rightarrow>
          Inr (d\<lparr>payments := update_first (\<lambda>x. p_id x = p_id pmt)
                                 (\<lambda>p. p\<lparr>p_studentPaid := True, p_paidAt := Some now\<rparr>)
                                 (payments d)\<rparr>))"

subsection \<open>What the pages offer\<close>

text \<open>\<open>TaskCard\<close> renders the bid form under \<open>user && user.role === 'tutor'\<close> and the accept
  control under \<open>user && user.role === 'student' && user.id === task.studentId\<close>;
  \<open>PaymentsPage\<close> renders the pay button under
  \<open>!p.studentPaid && user.role === 'student'\<close>.\<close>

definition showsBidForm :: "user option \<Rightarrow> bool" where
  "showsBidForm usr = (case usr of None \<Rightarrow> False | Some u \<Rightarrow> u_role u = Tutor)"

definition showsAcceptBidUI :: "user option \<Rightarrow> task \<Rightarrow> bool" where
  "showsAcceptBidUI usr tsk =
     (case usr of None \<Rightarrow> False
      | Some u \<Rightarrow> u_role u = Student \<and> u_id u = t_studentId tsk)"

definition showsPay :: "user \<Rightarrow> payment \<Rightarrow> bool" where
  "showsPay u p = (\<not> p_studentPaid p \<and> u_role u = Student)"

subsection \<open>The payments a user is shown\<close>

text \<open>The initial state of \<open>PaymentsPage\<close>: the filter over \<open>getDB().payments\<close>.\<close>

definition listPayments :: "user \<Rightarrow> db \<Rightarrow> payment list" where
  "listPayments u d =
     filter (\<lambda>p. case find (\<lambda>x. t_id x = p_taskId p) (tasks d) of
                   None \<Rightarrow> False
                 | Some t \<Rightarrow> if u_role u = Student then t_studentId t = u_id u else True)
       (payments d)"

subsection \<open>Sequences of handler calls\<close>

datatype action =
    Register regform nat
  | Submit "user option" taskform nat
  | SubmitBid "user option" task number string nat nat
  | Accept task bid nat nat
  | Pay payment nat

fun perform :: "action \<Rightarrow> db \<Rightarrow> error + db" where
  "perform (Register form now) d = register form now d"
| "perform (Submit usr form now) d = submit usr form now d"
| "perform (SubmitBid usr tsk amount message now now') d =
     submitBid usr tsk amount message now now' d"
| "perform (Accept tsk b now now') d = accept tsk b now now' d"
| "perform (Pay pmt now) d = pay pmt now d"

text \<open>The stored document after a handler ran: a handler that alerts or throws never
  reaches \<open>saveDB\<close>.\<close>

definition after :: "db \<Rightarrow> action \<Rightarrow> db" where
  "after d a = (case perform a d of Inl e \<Rightarrow> d | Inr d' \<Rightarrow> d')"

definition run :: "db \<Rightarrow> action list \<Rightarrow> db" where
  "run d acts = foldl after d acts"

subsection \<open>What a user can do through the pages\<close>

text \<open>
  A handler runs only when its control is on the page. For the user of a browser session
  (\<open>None\<close> when nobody is logged in): the registration form is always reachable;
  \<open>PostTaskCard\<close> is always rendered, and \<open>submit\<close> reads the session's user; \<open>BidForm\<close> and
  \<open>AcceptBidUI\<close> are rendered by \<open>TaskCard\<close> under the conditions above, and \<open>submitBid\<close>
  reads the session's user; the pay button belongs to a payment of the page's list and
  is rendered under the condition above, the payments page itself only for a logged-in
  user.
\<close>

fun offered :: "user option \<Rightarrow> action \<Rightarrow> bool" where
  "offered usr (Register form now) = True"
| "offered usr (Submit usr' form now) = (usr' = usr)"
| "offered usr (SubmitBid usr' tsk amount message now now') = (usr' = usr \<and> showsBidForm usr)"
| "offered usr (Accept tsk b now now') = showsAcceptBidUI usr tsk"
| "offered usr (Pay pmt now) = (case usr of None \<Rightarrow> False | Some u \<Rightarrow> showsPay u pmt)"

text \<open>The store after a user tried an action: nothing happens when the pages do not
  offer it.\<close>

definition ui_after :: "user option \<Rightarrow> db \<Rightarrow> action \<Rightarrow> db" where
  "ui_after usr d a = (if offered usr a then after d a else d)"

definition ui_run :: "user option \<Rightarrow> db \<Rightarrow> action list \<Rightarrow> db" where
  "ui_run usr d acts = foldl (ui_after usr) d acts"

section \<open>Notions the statements use\<close>

text \<open>The number of payment records that carry a given task id.\<close>

definition payments_for :: "string \<Rightarrow> db \<Rightarrow> nat" where
  "payments_for tid d = length (filter (\<lambda>p. p_taskId p = tid) (payments d))"

text \<open>The calls of \<open>accept\<close> in a sequence of handler calls whose task property has a given
  id.\<close>

fun accepts :: "string \<Rightarrow> action \<Rightarrow> bool" where
  "accepts tid (Accept tsk b now now') = (t_id tsk = tid)"
| "accepts tid (Register form now) = False"
| "accepts tid (Submit usr form now) = False"
| "accepts tid (SubmitBid usr tsk amount message now now') = False"
| "accepts tid (Pay pmt now) = False"

definition accept_calls :: "string \<Rightarrow> action list \<Rightarrow> nat" where
  "accept_calls tid acts = length (filter (accepts tid) acts)"

text \<open>The clock readings from which a sequence of handler calls builds task ids and bid
  ids: the reading of every \<open>submit\<close> and the first reading of every \<open>submitBid\<close> that gets
  past its guard (a call that alerts and returns reads no clock).\<close>

fun posted :: "action \<Rightarrow> nat list" where
  "posted (Submit usr form now) =
     (case usr of None \<Rightarrow> [] | Some u \<Rightarrow> if u_role u \<noteq> Student then [] else [now])"
| "posted (Register form now) = []"
| "posted (SubmitBid usr tsk amount message now now') = []"
| "posted (Accept tsk b now now') = []"
| "posted (Pay pmt now) = []"

fun placed :: "action \<Rightarrow> nat list" where
  "placed (SubmitBid usr tsk amount message now now') =
     (case usr of None \<Rightarrow> [] | Some u \<Rightarrow> [now])"
| "placed (Register form now) = []"
| "placed (Submit usr form now) = []"
| "placed (Accept tsk b now now') = []"
| "placed (Pay pmt now) = []"

text \<open>The task a payment refers to, as every reader of the store resolves it:
  \<open>db.tasks.find(x => x.id === p.taskId)\<close>.\<close>

definition task_of :: "db \<Rightarrow> payment \<Rightarrow> task option" where
  "task_of d p = find (\<lambda>x. t_id x = p_taskId p) (tasks d)"

section \<open>A worked scenario\<close>

text \<open>
  The scenario of the specification: a student posts a task at clock 10, two tutors bid at
  clocks 20 and 30, the student accepts the first bid at clock 40, then the second at
  clock 50, and pays the first payment at clock 60 and again at clock 70. The stores are
  written out; \<open>scenario_stores\<close> below shows that the handlers produce them.
\<close>

definition ex_student :: user where
  "ex_student = \<lparr>u_id = ''u_1'', u_name = ''Sam'', u_email = ''sam@x'', u_role = Student\<rparr>"

definition ex_tutorA :: user where
  "ex_tutorA = \<lparr>u_id = ''u_2'', u_name = ''Ann'', u_email = ''ann@x'', u_role = Tutor\<rparr>"

definition ex_tutorB :: user where
  "ex_tutorB = \<lparr>u_id = ''u_3'', u_name = ''Bob'', u_email = ''bob@x'', u_role = Tutor\<rparr>"

definition ex_form :: taskform where
  "ex_form = \<lparr>f_title = ''Essay help'', f_description = ''two pages'',
               f_dueDate = ''2026-01-01'', f_budget = ''500''\<rparr>"

definition ex_task :: task where
  "ex_task = \<lparr>t_id = ''t_10'', t_title = ''Essay help'', t_description = ''two pages'',
               t_studentId = ''u_1'', t_studentName = ''Sam'', t_dueDate = ''2026-01-01'',
               t_budget = ''500'', t_acceptedBid = None\<rparr>"

definition ex_bidA :: bid where
  "ex_bidA = \<lparr>b_id = ''b_20'', b_taskId = ''t_10'', b_tutorId = ''u_2'',
               b_tutorName = ''Ann'', b_amount = Some 400, b_message = ''can do'',
               b_createdAt = 21\<rparr>"

definition ex_bidB :: bid where
  "ex_bidB = \<lparr>b_id = ''b_30'', b_taskId = ''t_10'', b_tutorId = ''u_3'',
               b_tutorName = ''Bob'', b_amount = Some 450, b_message = [],
               b_createdAt = 31\<rparr>"

definition ex_payA :: payment where
  "ex_payA = \<lparr>p_id = ''p_40'', p_taskId = ''t_10'', p_amount = Some 400, p_studentPaid = False,
               p_createdAt = 41, p_paidAt = None\<rparr>"

definition ex_payB :: payment where
  "ex_payB = \<lparr>p_id = ''p_50'', p_taskId = ''t_10'', p_amount = Some 450, p_studentPaid = False,
               p_createdAt = 51, p_paidAt = None\<rparr>"

definition ex_db1 :: db where
  "ex_db1 = \<lparr>users = [], tasks = [ex_task], bids = [], payments = []\<rparr>"

definition ex_db3 :: db where
  "ex_db3 = \<lparr>users = [], tasks = [ex_task], bids = [ex_bidA, ex_bidB], payments = []\<rparr>"

definition ex_db4 :: db where
  "ex_db4 = \<lparr>users = [], tasks = [ex_task\<lparr>t_acceptedBid := Some ex_bidA\<rparr>],
              bids = [ex_bidA, ex_bidB], payments = [ex_payA]\<rparr>"

definition ex_db5 :: db where
  "ex_db5 = \<lparr>users = [], tasks = [ex_task\<lparr>t_acceptedBid := Some ex_bidB\<rparr>],
              bids = [ex_bidA, ex_bidB], payments = [ex_payA, ex_payB]\<rparr>"

definition ex_db6 :: db where
  "ex_db6 = \<lparr>users = [], tasks = [ex_task\<lparr>t_acceptedBid := Some ex_bidB\<rparr>],
              bids = [ex_bidA, ex_bidB],
              payments = [ex_payA\<lparr>p_studentPaid := True, p_paidAt := Some 60\<rparr>, ex_payB]\<rparr>"

definition ex_db7 :: db where
  "ex_db7 = \<lparr>users = [], tasks = [ex_task\<lparr>t_acceptedBid := Some ex_bidB\<rparr>],
              bids = [ex_bidA, ex_bidB],
              payments = [ex_payA\<lparr>p_studentPaid := True, p_paidAt := Some 70\<rparr>, ex_payB]\<rparr>"

definition ex_acts :: "action list" where
  "ex_acts =
     [Submit (Some ex_student) ex_form 10,
      SubmitBid (Some ex_tutorA) ex_task (Finite 400) ''can do'' 20 21,
      SubmitBid (Some ex_tutorB) ex_task (Finite 450) [] 30 31,
      Accept ex_task ex_bidA 40 41,
      Accept ex_task ex_bidB 50 51,
      Pay ex_payA 60,
      Pay ex_payA 70]"

section \<open>Facts about the model\<close>

subsection \<open>Decimal digits\<close>

lemma digit_inj: "a < 10 \<Longrightarrow> b < 10 \<Longrightarrow> digit a = digit b \<Longrightarrow> a = b"
proof -
  assume a: "a < 10" and b: "b < 10" and e: "digit a = digit b"
  have d: "distinct ''0123456789''" by simp
  have "length ''0123456789'' = 10" by simp
  with a b d e show "a = b"
    unfolding digit_def by (metis nth_eq_iff_index_eq)
qed

lemma string_of_nat_nonempty: "string_of_nat n \<noteq> []"
  by (subst string_of_nat.simps) simp

lemma string_of_nat_inj: "string_of_nat n = string_of_nat m \<Longrightarrow> n = m"
proof (induction n arbitrary: m rule: string_of_nat.induct)
  case (1 n)
  show ?case
  proof (cases "n < 10")
    case True
    note n = this
    show ?thesis
    proof (cases "m < 10")
      case True
      with n "1.prems" show ?thesis
        by (simp add: string_of_nat.simps [of n] string_of_nat.simps [of m] digit_inj)
    next
      case False
      with n "1.prems" show ?thesis
        using string_of_nat_nonempty [of "m div 10"]
        by (simp add: string_of_nat.simps [of n] string_of_nat.simps [of m])
    qed
  next
    case False
    note n = this
    show ?thesis
    proof (cases "m < 10")
      case True
      with n "1.prems" show ?thesis
        using string_of_nat_nonempty [of "n div 10"]
        by (simp add: string_of_nat.simps [of n] string_of_nat.simps [of m])
    next
      case False
      with n "1.prems" have e: "string_of_nat (n div 10) = string_of_nat (m div 10)"
        and d: "digit (n mod 10) = digit (m mod 10)"
        by (simp_all add: string_of_nat.simps [of n] string_of_nat.simps [of m])
      from "1.IH" [OF n e] have "n div 10 = m div 10" .
      moreover from d have "n mod 10 = m mod 10" by (simp add: digit_inj)
      ultimately show ?thesis by (metis div_mult_mod_eq)
    qed
  qed
qed


subsection \<open>The scenario, evaluated\<close>

lemmas ex_defs =
  ex_student_def ex_tutorA_def ex_tutorB_def ex_form_def ex_task_def ex_bidA_def ex_bidB_def
  ex_payA_def ex_payB_def ex_db1_def ex_db3_def ex_db4_def ex_db5_def ex_db6_def ex_db7_def
  ex_acts_def

lemmas handler_defs =
  register_def submit_def submitBid_def accept_def pay_def after_def run_def seed_def
  ui_after_def ui_run_def showsBidForm_def showsAcceptBidUI_def showsPay_def

lemma string_of_nat_examples:
  "string_of_nat 10 = ''10''" "string_of_nat 20 = ''20''" "string_of_nat 30 = ''30''"
  "string_of_nat 40 = ''40''" "string_of_nat 50 = ''50''"
  by (simp_all add: string_of_nat.simps digit_def)

lemma scenario_stores:
  "run seed (take 1 ex_acts) = ex_db1"
  "run seed (take 3 ex_acts) = ex_db3"
  "run seed (take 4 ex_acts) = ex_db4"
  "run seed (take 5 ex_acts) = ex_db5"
  "run seed (take 6 ex_acts) = ex_db6"
  "run seed ex_acts = ex_db7"
  by (simp_all add: ex_defs handler_defs string_of_nat_examples)

subsection \<open>find and the mutation of what it returned\<close>

lemma length_update_first: "length (update_first P f xs) = length xs"
  by (induction xs) auto

lemma update_first_absent: "find P xs = None \<Longrightarrow> update_first P f xs = xs"
  by (induction xs) (auto split: if_splits)

lemma find_first_split:
  "find P xs = Some x \<Longrightarrow>
     \<exists>ys zs. xs = ys @ x # zs \<and> (\<forall>y\<in>set ys. \<not> P y) \<and> P x \<and>
       update_first P f xs = ys @ f x # zs"
proof (induction xs)
  case Nil
  then show ?case by simp
next
  case (Cons a xs)
  show ?case
  proof (cases "P a")
    case True
    with Cons.prems have "a = x" by simp
    with True have "a # xs = [] @ x # xs \<and> (\<forall>y\<in>set []. \<not> P y) \<and> P x \<and>
       update_first P f (a # xs) = [] @ f x # xs" by simp
    then show ?thesis by blast
  next
    case False
    with Cons.prems have "find P xs = Some x" by simp
    from Cons.IH [OF this] obtain ys zs where
      h: "xs = ys @ x # zs" "\<forall>y\<in>set ys. \<not> P y" "P x" "update_first P f xs = ys @ f x # zs"
      by blast
    with False have "a # xs = (a # ys) @ x # zs \<and> (\<forall>y\<in>set (a # ys). \<not> P y) \<and> P x \<and>
       update_first P f (a # xs) = (a # ys) @ f x # zs" by simp
    then show ?thesis by blast
  qed
qed

lemma map_update_first: "(\<And>x. g (f x) = g x) \<Longrightarrow> map g (update_first P f xs) = map g xs"
  by (induction xs) auto

lemma find_after_update_first:
  "find P xs = Some x \<Longrightarrow> P (f x) \<Longrightarrow> find P (update_first P f xs) = Some (f x)"
  by (induction xs) (auto split: if_splits)

lemma accept_Inr:
  "accept tsk b now now' d = Inr d' \<Longrightarrow>
     \<exists>t. find (\<lambda>t. t_id t = t_id tsk) (tasks d) = Some t \<and>
       d' = d\<lparr>tasks := update_first (\<lambda>t. t_id t = t_id tsk)
                              (\<lambda>t. t\<lparr>t_acceptedBid := Some b\<rparr>) (tasks d),
                    payments := payments d @
                      [\<lparr>p_id = ''p_'' @ string_of_nat now, p_taskId = t_id tsk,
                        p_amount = b_amount b, p_studentPaid = False,
                        p_createdAt = now', p_paidAt = None\<rparr>]\<rparr>"
  by (auto simp: accept_def split: option.splits)


subsection \<open>Payments through the handlers\<close>

lemma run_Nil: "run d [] = d"
  by (simp add: run_def)

lemma run_Cons: "run d (a # acts) = run (after d a) acts"
  by (simp add: run_def)

lemma filter_update_first:
  "(\<And>x. g (f x) = g x) \<Longrightarrow>
     length (filter (\<lambda>x. g x = v) (update_first P f xs)) = length (filter (\<lambda>x. g x = v) xs)"
  by (induction xs) auto

lemma payments_after:
  "payments (after d (Register form now)) = payments d"
  "payments (after d (Submit usr tform now)) = payments d"
  "payments (after d (SubmitBid usr tsk amount message now now')) = payments d"
  "payments (after d (Accept tsk b now now')) =
     (if find (\<lambda>t. t_id t = t_id tsk) (tasks d) = None then payments d
      else payments d @
        [\<lparr>p_id = ''p_'' @ string_of_nat now, p_taskId = t_id tsk, p_amount = b_amount b,
          p_studentPaid = False, p_createdAt = now', p_paidAt = None\<rparr>])"
  "payments (after d (Pay pmt now)) =
     update_first (\<lambda>x. p_id x = p_id pmt)
       (\<lambda>p. p\<lparr>p_studentPaid := True, p_paidAt := Some now\<rparr>) (payments d)"
  by (auto simp: after_def register_def submit_def submitBid_def accept_def pay_def
      update_first_absent split: option.splits)

lemma payments_for_after:
  "payments_for tid (after d a) \<le> payments_for tid d + (if accepts tid a then 1 else 0)"
  by (cases a) (simp_all add: payments_for_def payments_after filter_update_first)

lemma payments_for_run:
  "payments_for tid (run d acts) \<le> payments_for tid d + accept_calls tid acts"
proof (induction acts arbitrary: d)
  case Nil
  show ?case by (simp add: run_Nil accept_calls_def)
next
  case (Cons a acts)
  have "payments_for tid (run d (a # acts)) \<le> payments_for tid (after d a) + accept_calls tid acts"
    using Cons.IH [of "after d a"] by (simp add: run_Cons)
  also have "\<dots> \<le> payments_for tid d + (if accepts tid a then 1 else 0) + accept_calls tid acts"
    using payments_for_after [of tid d a] by simp
  also have "\<dots> = payments_for tid d + accept_calls tid (a # acts)"
    by (simp add: accept_calls_def)
  finally show ?case .
qed

subsection \<open>Paid payments through the handlers\<close>

lemma nth_update_first:
  "i < length xs \<Longrightarrow> update_first P f xs ! i = xs ! i \<or> update_first P f xs ! i = f (xs ! i)"
proof (induction xs arbitrary: i)
  case Nil
  then show ?case by simp
next
  case (Cons x xs)
  show ?case
  proof (cases i)
    case 0
    then show ?thesis by simp
  next
    case (Suc j)
    with Cons.prems have "j < length xs" by simp
    from Cons.IH [OF this] Suc show ?thesis by auto
  qed
qed

lemma paid_after:
  assumes "i < length (payments d)" and "p_studentPaid (payments d ! i)"
  shows "i < length (payments (after d a)) \<and>
         p_id (payments (after d a) ! i) = p_id (payments d ! i) \<and>
         p_studentPaid (payments (after d a) ! i)"
proof (cases a)
  case (Pay pmt now)
  from nth_update_first [OF assms(1), of "\<lambda>x. p_id x = p_id pmt"
      "\<lambda>p. p\<lparr>p_studentPaid := True, p_paidAt := Some now\<rparr>"] assms
  show ?thesis
    unfolding Pay payments_after by (auto simp: length_update_first)
next
  case (Accept tsk b now now')
  with assms show ?thesis by (simp add: payments_after nth_append)
qed (use assms in \<open>simp_all add: payments_after\<close>)

lemma paid_run:
  "i < length (payments d) \<Longrightarrow> p_studentPaid (payments d ! i) \<Longrightarrow>
     i < length (payments (run d acts)) \<and>
     p_id (payments (run d acts) ! i) = p_id (payments d ! i) \<and>
     p_studentPaid (payments (run d acts) ! i)"
proof (induction acts arbitrary: d)
  case Nil
  then show ?case by (simp add: run_Nil)
next
  case (Cons a acts)
  from paid_after [OF Cons.prems, of a] have
    s: "i < length (payments (after d a))" "p_studentPaid (payments (after d a) ! i)"
    and e: "p_id (payments (after d a) ! i) = p_id (payments d ! i)"
    by simp_all
  from Cons.IH [OF s] e show ?case by (simp add: run_Cons)
qed

lemma pay_Inr:
  "pay pmt now d = Inr d' \<Longrightarrow>
     \<exists>p. find (\<lambda>x. p_id x = p_id pmt) (payments d) = Some p \<and>
       d' = d\<lparr>payments := update_first (\<lambda>x. p_id x = p_id pmt)
                 (\<lambda>p. p\<lparr>p_studentPaid := True, p_paidAt := Some now\<rparr>) (payments d)\<rparr>"
  by (auto simp: pay_def split: option.splits)

subsection \<open>The ids the handlers append\<close>

lemma task_ids_after:
  "map t_id (tasks (after d a)) = map t_id (tasks d) @ map (\<lambda>n. ''t_'' @ string_of_nat n) (posted a)"
proof (cases a)
  case (Accept tsk b now now')
  have "map t_id (update_first (\<lambda>t. t_id t = t_id tsk) (\<lambda>t. t\<lparr>t_acceptedBid := Some b\<rparr>) (tasks d))
          = map t_id (tasks d)"
    by (rule map_update_first) simp
  with Accept show ?thesis
    by (simp add: after_def accept_def split: option.splits)
qed (simp_all add: after_def register_def submit_def submitBid_def pay_def split: option.splits)

lemma bid_ids_after:
  "map b_id (bids (after d a)) = map b_id (bids d) @ map (\<lambda>n. ''b_'' @ string_of_nat n) (placed a)"
  by (cases a)
    (simp_all add: after_def register_def submit_def submitBid_def accept_def pay_def
      split: option.splits)

lemma task_ids_run:
  "map t_id (tasks (run d acts))
     = map t_id (tasks d) @ map (\<lambda>n. ''t_'' @ string_of_nat n) (concat (map posted acts))"
  by (induction acts arbitrary: d) (simp_all add: run_Nil run_Cons task_ids_after)

lemma bid_ids_run:
  "map b_id (bids (run d acts))
     = map b_id (bids d) @ map (\<lambda>n. ''b_'' @ string_of_nat n) (concat (map placed acts))"
  by (induction acts arbitrary: d) (simp_all add: run_Nil run_Cons bid_ids_after)

lemma prefixed_inj: "inj (\<lambda>n. pre @ string_of_nat n)"
  by (rule injI) (simp add: string_of_nat_inj)

subsection \<open>Every stored payment refers to a stored task\<close>

lemma find_Some_mem: "find P xs = Some x \<Longrightarrow> x \<in> set xs \<and> P x"
  by (induction xs) (auto split: if_splits)

lemma payment_task_ids_after:
  "set (map p_taskId (payments d)) \<subseteq> set (map t_id (tasks d)) \<Longrightarrow>
     set (map p_taskId (payments (after d a))) \<subseteq> set (map t_id (tasks (after d a)))"
proof (cases a)
  case (Accept tsk b now now')
  assume inv: "set (map p_taskId (payments d)) \<subseteq> set (map t_id (tasks d))"
  show ?thesis
  proof (cases "find (\<lambda>t. t_id t = t_id tsk) (tasks d)")
    case None
    with inv Accept show ?thesis by (simp add: after_def accept_def)
  next
    case (Some t)
    from find_Some_mem [OF this] have "t \<in> set (tasks d)" "t_id t = t_id tsk"
      by simp_all
    then have "t_id tsk \<in> set (map t_id (tasks d))"
      by (metis image_eqI set_map)
    with inv show ?thesis
      unfolding task_ids_after Accept by (auto simp: payments_after Some)
  qed
next
  case (Pay pmt now)
  assume inv: "set (map p_taskId (payments d)) \<subseteq> set (map t_id (tasks d))"
  have "map p_taskId (update_first (\<lambda>x. p_id x = p_id pmt)
          (\<lambda>p. p\<lparr>p_studentPaid := True, p_paidAt := Some now\<rparr>) (payments d))
        = map p_taskId (payments d)"
    by (rule map_update_first) simp
  with inv show ?thesis
    unfolding task_ids_after Pay payments_after by auto
qed (auto simp: task_ids_after payments_after)

lemma payment_task_ids_run:
  "set (map p_taskId (payments d)) \<subseteq> set (map t_id (tasks d)) \<Longrightarrow>
     set (map p_taskId (payments (run d acts))) \<subseteq> set (map t_id (tasks (run d acts)))"
proof (induction acts arbitrary: d)
  case Nil
  then show ?case by (simp add: run_Nil)
next
  case (Cons a acts)
  from Cons.IH [OF payment_task_ids_after [OF Cons.prems, of a]]
  show ?case by (simp add: run_Cons)
qed

lemma task_of_None_iff: "task_of d p = None \<longleftrightarrow> p_taskId p \<notin> set (map t_id (tasks d))"
  by (auto simp: task_of_def find_None_iff image_iff)

lemma listPayments_student:
  "u_role u = Student \<Longrightarrow>
     listPayments u d
       = filter (\<lambda>p. \<exists>t. task_of d p = Some t \<and> t_studentId t = u_id u) (payments d)"
  unfolding listPayments_def task_of_def
  by (rule filter_cong) (auto split: option.splits)

lemma listPayments_tutor:
  "u_role u = Tutor \<Longrightarrow>
     listPayments u d = filter (\<lambda>p. task_of d p \<noteq> None) (payments d)"
  unfolding listPayments_def task_of_def
  by (rule filter_cong) (auto split: option.splits)

subsection \<open>Bids through the handlers and the pages\<close>




section \<open>Acceptance and payments\<close>

text \<open>
  C1, as stated: for every task, at most one payment carries its id, however often
  \<open>accept\<close> is invoked on it. \<open>accept\<close> never looks at \<open>acceptedBid\<close> or at the payments
  already stored: in the scenario the student accepts the first bid and then the second
  one on the same task, and the store holds two payments for that task.
\<close>

theorem accept_twice_two_payments:
  "payments (run seed (take 5 ex_acts)) = [ex_payA, ex_payB] \<and>
   p_taskId ex_payA = t_id ex_task \<and> p_taskId ex_payB = t_id ex_task \<and>
   payments_for (t_id ex_task) (run seed (take 5 ex_acts)) = 2"
  by (simp add: scenario_stores payments_for_def) (simp add: ex_defs)

text \<open>
  C1, amended: over every sequence of handler calls, the number of payments that carry
  a task id grows by at most the number of \<open>accept\<close> calls made for that id; from the
  empty store it is at most that number, hence at most one while \<open>accept\<close> was invoked
  at most once for the task.
\<close>

theorem payments_bounded_by_accept_calls:
  "payments_for tid (run d acts) \<le> payments_for tid d + accept_calls tid acts \<and>
   payments_for tid (run seed acts) \<le> accept_calls tid acts"
proof
  show "payments_for tid (run d acts) \<le> payments_for tid d + accept_calls tid acts"
    by (rule payments_for_run)
  have "payments_for tid seed = 0" by (simp add: payments_for_def seed_def)
  with payments_for_run [of tid seed acts]
  show "payments_for tid (run seed acts) \<le> accept_calls tid acts" by simp
qed

text \<open>
  C2, as stated: on a task whose \<open>acceptedBid\<close> is set, a further \<open>accept\<close> fails with
  AlreadyAccepted, leaves \<open>acceptedBid\<close> alone and creates no payment. In the scenario the
  task is accepted with the first bid; accepting the second bid returns normally,
  replaces \<open>acceptedBid\<close> and stores a second payment.
\<close>

theorem second_accept_succeeds:
  "t_acceptedBid (hd (tasks ex_db4)) = Some ex_bidA \<and>
   accept ex_task ex_bidB 50 51 ex_db4 = Inr ex_db5 \<and>
   t_acceptedBid (hd (tasks ex_db5)) = Some ex_bidB \<and>
   payments ex_db4 = [ex_payA] \<and> payments ex_db5 = [ex_payA, ex_payB]"
  by (simp add: ex_defs accept_def string_of_nat_examples)

text \<open>
  C2, amended: on a task whose \<open>acceptedBid\<close> is already set, a further \<open>accept\<close> (with
  the same or another bid) succeeds: it overwrites \<open>acceptedBid\<close> with the bid passed and
  appends one more unpaid payment for the task, with that bid's amount.
\<close>

theorem accept_again:
  assumes "find (\<lambda>t. t_id t = t_id tsk) (tasks d) = Some t"
    and "t_acceptedBid t = Some b0"
  shows "\<exists>d'. accept tsk b now now' d = Inr d' \<and>
           find (\<lambda>t. t_id t = t_id tsk) (tasks d') = Some (t\<lparr>t_acceptedBid := Some b\<rparr>) \<and>
           payments d' = payments d @
             [\<lparr>p_id = ''p_'' @ string_of_nat now, p_taskId = t_id tsk, p_amount = b_amount b,
               p_studentPaid = False, p_createdAt = now', p_paidAt = None\<rparr>] \<and>
           payments_for (t_id tsk) d' = Suc (payments_for (t_id tsk) d)"
proof -
  from assms(1) have "t_id t = t_id tsk" by (auto dest: find_Some_iff [THEN iffD1])
  then have "find (\<lambda>t. t_id t = t_id tsk)
      (update_first (\<lambda>t. t_id t = t_id tsk) (\<lambda>t. t\<lparr>t_acceptedBid := Some b\<rparr>) (tasks d))
      = Some (t\<lparr>t_acceptedBid := Some b\<rparr>)"
    using assms(1) by (simp add: find_after_update_first)
  with assms(1) show ?thesis
    by (simp add: accept_def payments_for_def)
qed

theorem accept_again_witness:
  "find (\<lambda>t. t_id t = t_id ex_task) (tasks ex_db4)
     = Some (ex_task\<lparr>t_acceptedBid := Some ex_bidA\<rparr>) \<and>
   (\<exists>d'. accept ex_task ex_bidB 50 51 ex_db4 = Inr d' \<and>
      find (\<lambda>t. t_id t = t_id ex_task) (tasks d')
        = Some (ex_task\<lparr>t_acceptedBid := Some ex_bidB\<rparr>) \<and>
      payments d' = payments ex_db4 @
        [\<lparr>p_id = ''p_'' @ string_of_nat 50, p_taskId = t_id ex_task,
          p_amount = b_amount ex_bidB, p_studentPaid = False, p_createdAt = 51,
          p_paidAt = None\<rparr>] \<and>
      payments_for (t_id ex_task) d' = Suc (payments_for (t_id ex_task) ex_db4))"
proof -
  have f: "find (\<lambda>t. t_id t = t_id ex_task) (tasks ex_db4)
             = Some (ex_task\<lparr>t_acceptedBid := Some ex_bidA\<rparr>)"
    by (simp add: ex_defs)
  have a: "t_acceptedBid (ex_task\<lparr>t_acceptedBid := Some ex_bidA\<rparr>) = Some ex_bidA"
    by simp
  from accept_again [OF f a, of ex_bidB 50 51] f show ?thesis
    by simp
qed

text \<open>
  C3: a successful \<open>accept\<close> saves, in its single \<open>saveDB\<close>, the store in which the first
  task with the id of the task property has \<open>acceptedBid\<close> set to the bid passed (the
  source stores the bid object, hence its id) and in which exactly one payment is
  appended: the task's id, the bid's amount, unpaid. Nothing else changes. An \<open>accept\<close>
  that does not succeed saves nothing, so the store never holds one write without the
  other.
\<close>

theorem accept_atomic:
  "(accept tsk b now now' d = Inr d' \<longrightarrow>
      (\<exists>ts1 t ts2.
         tasks d = ts1 @ t # ts2 \<and> (\<forall>x\<in>set ts1. t_id x \<noteq> t_id tsk) \<and>
         t_id t = t_id tsk \<and>
         tasks d' = ts1 @ t\<lparr>t_acceptedBid := Some b\<rparr> # ts2 \<and>
         payments d' = payments d @
           [\<lparr>p_id = ''p_'' @ string_of_nat now, p_taskId = t_id tsk, p_amount = b_amount b,
             p_studentPaid = False, p_createdAt = now', p_paidAt = None\<rparr>] \<and>
         users d' = users d \<and> bids d' = bids d)) \<and>
   (accept tsk b now now' d = Inl e \<longrightarrow> after d (Accept tsk b now now') = d)"
proof (intro conjI impI)
  assume ok: "accept tsk b now now' d = Inr d'"
  from accept_Inr [OF ok] obtain t where
    f: "find (\<lambda>t. t_id t = t_id tsk) (tasks d) = Some t" and
    d': "d' = d\<lparr>tasks := update_first (\<lambda>t. t_id t = t_id tsk)
                              (\<lambda>t. t\<lparr>t_acceptedBid := Some b\<rparr>) (tasks d),
                    payments := payments d @
                      [\<lparr>p_id = ''p_'' @ string_of_nat now, p_taskId = t_id tsk,
                        p_amount = b_amount b, p_studentPaid = False,
                        p_createdAt = now', p_paidAt = None\<rparr>]\<rparr>"
    by blast
  from find_first_split [OF f, of "\<lambda>t. t\<lparr>t_acceptedBid := Some b\<rparr>"] obtain ys zs where
    s: "tasks d = ys @ t # zs" "\<forall>y\<in>set ys. t_id y \<noteq> t_id tsk" "t_id t = t_id tsk"
       "update_first (\<lambda>t. t_id t = t_id tsk) (\<lambda>t. t\<lparr>t_acceptedBid := Some b\<rparr>) (tasks d)
          = ys @ t\<lparr>t_acceptedBid := Some b\<rparr> # zs"
    by blast
  from s d' show "\<exists>ts1 t ts2.
         tasks d = ts1 @ t # ts2 \<and> (\<forall>x\<in>set ts1. t_id x \<noteq> t_id tsk) \<and>
         t_id t = t_id tsk \<and>
         tasks d' = ts1 @ t\<lparr>t_acceptedBid := Some b\<rparr> # ts2 \<and>
         payments d' = payments d @
           [\<lparr>p_id = ''p_'' @ string_of_nat now, p_taskId = t_id tsk, p_amount = b_amount b,
             p_studentPaid = False, p_createdAt = now', p_paidAt = None\<rparr>] \<and>
         users d' = users d \<and> bids d' = bids d"
    by auto
next
  assume "accept tsk b now now' d = Inl e"
  then show "after d (Accept tsk b now now') = d"
    by (simp add: after_def)
qed

theorem accept_atomic_witness:
  "accept ex_task ex_bidA 40 41 ex_db3 = Inr ex_db4 \<and>
   (\<exists>ts1 t ts2.
      tasks ex_db3 = ts1 @ t # ts2 \<and> (\<forall>x\<in>set ts1. t_id x \<noteq> t_id ex_task) \<and>
      t_id t = t_id ex_task \<and>
      tasks ex_db4 = ts1 @ t\<lparr>t_acceptedBid := Some ex_bidA\<rparr> # ts2 \<and>
      payments ex_db4 = payments ex_db3 @
        [\<lparr>p_id = ''p_'' @ string_of_nat 40, p_taskId = t_id ex_task,
          p_amount = b_amount ex_bidA, p_studentPaid = False, p_createdAt = 41,
          p_paidAt = None\<rparr>] \<and>
      users ex_db4 = users ex_db3 \<and> bids ex_db4 = bids ex_db3) \<and>
   accept ex_task ex_bidA 40 41 seed = Inl TypeError \<and>
   after seed (Accept ex_task ex_bidA 40 41) = seed"
proof -
  have ok: "accept ex_task ex_bidA 40 41 ex_db3 = Inr ex_db4"
    by (simp add: ex_defs accept_def string_of_nat_examples)
  have no: "accept ex_task ex_bidA 40 41 seed = Inl TypeError"
    by (simp add: accept_def seed_def)
  from accept_atomic [of ex_task ex_bidA 40 41 ex_db3 ex_db4] ok
    accept_atomic [of ex_task ex_bidA 40 41 seed _ TypeError] no
  show ?thesis by blast
qed

section \<open>Bids\<close>



text \<open>
  C5, as stated: a \<open>submitBid\<close> with a negative amount fails with InvalidAmount and
  persists no bid. The source converts the text field with \<open>Number\<close> and stores the result
  unchecked: a tutor's bid of \<open>-5\<close> is saved with amount \<open>-5\<close>.
\<close>

theorem negative_bid_persisted:
  "submitBid (Some ex_tutorA) ex_task (Finite (- 5)) ''can do'' 20 21 ex_db1
     = Inr (ex_db1\<lparr>bids := [ex_bidA\<lparr>b_amount := Some (- 5)\<rparr>]\<rparr>)"
  by (simp add: ex_defs submitBid_def string_of_nat_examples)

text \<open>
  C5, amended: \<open>submitBid\<close> validates no amount: whatever \<open>Number(amount)\<close> is, the call of a
  logged-in user succeeds and appends exactly one bid with the id of the task property
  and the user's id; tasks, payments and users are unchanged. A finite amount, negative
  or not, is stored as it is; \<open>NaN\<close>, \<open>Infinity\<close> and \<open>-Infinity\<close> are stored as \<open>null\<close>. There
  is no InvalidAmount failure.
\<close>

theorem submitBid_checks_no_amount:
  "\<exists>d'. submitBid (Some u) tsk amount message now now' d = Inr d' \<and>
      length (bids d') = Suc (length (bids d)) \<and>
      take (length (bids d)) (bids d') = bids d \<and>
      b_amount (last (bids d'))
        = (case amount of Finite r \<Rightarrow> Some r | NaN \<Rightarrow> None | Infinity \<Rightarrow> None
           | NegInfinity \<Rightarrow> None) \<and>
      b_taskId (last (bids d')) = t_id tsk \<and>
      b_tutorId (last (bids d')) = u_id u \<and>
      tasks d' = tasks d \<and> payments d' = payments d \<and> users d' = users d"
  by (cases amount) (simp_all add: submitBid_def)

section \<open>Paying\<close>

text \<open>
  C6: no handler resets \<open>studentPaid\<close>. A payment is a position in the \<open>payments\<close> array
  (payments are appended and never removed): if the payment at a position is paid, then
  after every sequence of handler calls that position still holds a payment with the
  same id, and it is paid. A successful \<open>pay\<close> sets \<open>studentPaid\<close> to true and \<open>paidAt\<close> to
  the clock reading on the first payment with the id of the payment passed, and changes
  no other payment.
\<close>

theorem paid_stays_paid:
  "(i < length (payments d) \<and> p_studentPaid (payments d ! i) \<longrightarrow>
      i < length (payments (run d acts)) \<and>
      p_id (payments (run d acts) ! i) = p_id (payments d ! i) \<and>
      p_studentPaid (payments (run d acts) ! i)) \<and>
   (pay pmt now d = Inr d' \<longrightarrow>
      (\<exists>ps p qs.
         payments d = ps @ p # qs \<and> (\<forall>x\<in>set ps. p_id x \<noteq> p_id pmt) \<and>
         p_id p = p_id pmt \<and>
         payments d' = ps @ p\<lparr>p_studentPaid := True, p_paidAt := Some now\<rparr> # qs))"
proof (rule conjI)
  show "i < length (payments d) \<and> p_studentPaid (payments d ! i) \<longrightarrow>
      i < length (payments (run d acts)) \<and>
      p_id (payments (run d acts) ! i) = p_id (payments d ! i) \<and>
      p_studentPaid (payments (run d acts) ! i)"
    using paid_run [of i d acts] by blast
next
  show "pay pmt now d = Inr d' \<longrightarrow>
      (\<exists>ps p qs.
         payments d = ps @ p # qs \<and> (\<forall>x\<in>set ps. p_id x \<noteq> p_id pmt) \<and>
         p_id p = p_id pmt \<and>
         payments d' = ps @ p\<lparr>p_studentPaid := True, p_paidAt := Some now\<rparr> # qs)"
  proof
    assume ok: "pay pmt now d = Inr d'"
    from pay_Inr [OF ok] obtain p where
      f: "find (\<lambda>x. p_id x = p_id pmt) (payments d) = Some p" and
      d': "d' = d\<lparr>payments := update_first (\<lambda>x. p_id x = p_id pmt)
                   (\<lambda>p. p\<lparr>p_studentPaid := True, p_paidAt := Some now\<rparr>) (payments d)\<rparr>"
      by blast
    from find_first_split [OF f, of "\<lambda>p. p\<lparr>p_studentPaid := True, p_paidAt := Some now\<rparr>"]
    obtain ys zs where
      s: "payments d = ys @ p # zs" "\<forall>y\<in>set ys. p_id y \<noteq> p_id pmt" "p_id p = p_id pmt"
         "update_first (\<lambda>x. p_id x = p_id pmt)
            (\<lambda>p. p\<lparr>p_studentPaid := True, p_paidAt := Some now\<rparr>) (payments d)
            = ys @ p\<lparr>p_studentPaid := True, p_paidAt := Some now\<rparr> # zs"
      by blast
    from s d' show "\<exists>ps p qs.
           payments d = ps @ p # qs \<and> (\<forall>x\<in>set ps. p_id x \<noteq> p_id pmt) \<and>
           p_id p = p_id pmt \<and>
           payments d' = ps @ p\<lparr>p_studentPaid := True, p_paidAt := Some now\<rparr> # qs"
      by auto
  qed
qed

theorem paid_stays_paid_witness:
  "0 < length (payments ex_db6) \<and> p_studentPaid (payments ex_db6 ! 0) \<and>
   0 < length (payments (run ex_db6 [Pay ex_payA 70, Accept ex_task ex_bidA 80 81])) \<and>
   p_id (payments (run ex_db6 [Pay ex_payA 70, Accept ex_task ex_bidA 80 81]) ! 0)
     = p_id (payments ex_db6 ! 0) \<and>
   p_studentPaid (payments (run ex_db6 [Pay ex_payA 70, Accept ex_task ex_bidA 80 81]) ! 0) \<and>
   pay ex_payA 60 ex_db5 = Inr ex_db6 \<and>
   (\<exists>ps p qs.
      payments ex_db5 = ps @ p # qs \<and> (\<forall>x\<in>set ps. p_id x \<noteq> p_id ex_payA) \<and>
      p_id p = p_id ex_payA \<and>
      payments ex_db6 = ps @ p\<lparr>p_studentPaid := True, p_paidAt := Some 60\<rparr> # qs)"
proof -
  have h: "0 < length (payments ex_db6) \<and> p_studentPaid (payments ex_db6 ! 0)"
    by (simp add: ex_defs)
  have ok: "pay ex_payA 60 ex_db5 = Inr ex_db6"
    by (simp add: ex_defs pay_def)
  from paid_stays_paid [of 0 ex_db6 "[Pay ex_payA 70, Accept ex_task ex_bidA 80 81]"]
    paid_stays_paid [of _ ex_db5 _ ex_payA 60 ex_db6] h ok
  show ?thesis by blast
qed

text \<open>
  C7, as stated: \<open>pay\<close> on a payment that is already paid fails with AlreadyPaid and
  leaves the record, \<open>paidAt\<close> included, unchanged. \<open>pay\<close> has no such test: in the scenario
  the payment was paid at clock 60; paying it again at clock 70 returns normally and
  the stored \<open>paidAt\<close> becomes 70.
\<close>

theorem second_pay_overwrites_paidAt:
  "p_studentPaid (hd (payments ex_db6)) \<and> p_paidAt (hd (payments ex_db6)) = Some 60 \<and>
   pay ex_payA 70 ex_db6 = Inr ex_db7 \<and>
   p_studentPaid (hd (payments ex_db7)) \<and> p_paidAt (hd (payments ex_db7)) = Some 70"
  by (simp add: ex_defs pay_def)

text \<open>
  C7, amended: \<open>pay\<close> on a payment whose \<open>studentPaid\<close> is already true is not rejected:
  it succeeds, the flag stays true, \<open>paidAt\<close> is overwritten with the current clock
  reading and nothing else in the record changes; there is no AlreadyPaid failure. The
  page renders no pay button for a payment it shows as paid.
\<close>

theorem pay_on_paid_payment:
  assumes "find (\<lambda>x. p_id x = p_id pmt) (payments d) = Some p"
    and "p_studentPaid p"
  shows "\<exists>d'. pay pmt now d = Inr d' \<and>
           find (\<lambda>x. p_id x = p_id pmt) (payments d') = Some (p\<lparr>p_paidAt := Some now\<rparr>) \<and>
           length (payments d') = length (payments d) \<and>
           \<not> showsPay u p"
proof -
  from assms(1) have i: "p_id p = p_id pmt" by (auto dest: find_Some_iff [THEN iffD1])
  from assms(2) have e: "p\<lparr>p_studentPaid := True, p_paidAt := Some now\<rparr> = p\<lparr>p_paidAt := Some now\<rparr>"
    by simp
  from i have "find (\<lambda>x. p_id x = p_id pmt)
      (update_first (\<lambda>x. p_id x = p_id pmt)
         (\<lambda>p. p\<lparr>p_studentPaid := True, p_paidAt := Some now\<rparr>) (payments d))
      = Some (p\<lparr>p_studentPaid := True, p_paidAt := Some now\<rparr>)"
    using assms(1) by (simp add: find_after_update_first)
  with assms e show ?thesis
    by (simp add: pay_def length_update_first showsPay_def)
qed

theorem pay_on_paid_payment_witness:
  "find (\<lambda>x. p_id x = p_id ex_payA) (payments ex_db6)
     = Some (ex_payA\<lparr>p_studentPaid := True, p_paidAt := Some 60\<rparr>) \<and>
   (\<exists>d'. pay ex_payA 70 ex_db6 = Inr d' \<and>
      find (\<lambda>x. p_id x = p_id ex_payA) (payments d')
        = Some (ex_payA\<lparr>p_studentPaid := True, p_paidAt := Some 70\<rparr>) \<and>
      length (payments d') = length (payments ex_db6) \<and>
      \<not> showsPay ex_student (ex_payA\<lparr>p_studentPaid := True, p_paidAt := Some 60\<rparr>))"
proof -
  have f: "find (\<lambda>x. p_id x = p_id ex_payA) (payments ex_db6)
     = Some (ex_payA\<lparr>p_studentPaid := True, p_paidAt := Some 60\<rparr>)"
    by (simp add: ex_defs)
  have s: "p_studentPaid (ex_payA\<lparr>p_studentPaid := True, p_paidAt := Some 60\<rparr>)"
    by simp
  from pay_on_paid_payment [OF f s, of 70 ex_student] f show ?thesis
    by simp
qed

section \<open>The payments page\<close>

text \<open>
  C8: a student is shown exactly the payments whose task (the first task with the
  payment's \<open>taskId\<close>, as the source resolves it) is owned by that student; a tutor is
  shown all payments. A payment's \<open>taskId\<close> references a task: \<open>accept\<close> pushes a payment only
  after it found the task and no handler removes a task, so the tutor's clause holds on
  every store the handlers produce from the empty one, and on every store in which each
  payment's task exists.
\<close>

theorem listPayments_by_role:
  "(u_role u = Student \<longrightarrow>
      listPayments u d
        = filter (\<lambda>p. \<exists>t. task_of d p = Some t \<and> t_studentId t = u_id u) (payments d)) \<and>
   (u_role u = Tutor \<longrightarrow> listPayments u (run seed acts) = payments (run seed acts)) \<and>
   (u_role u = Tutor \<longrightarrow> (\<forall>p\<in>set (payments d). task_of d p \<noteq> None) \<longrightarrow>
      listPayments u d = payments d)"
proof (intro conjI impI)
  assume "u_role u = Student"
  then show "listPayments u d
        = filter (\<lambda>p. \<exists>t. task_of d p = Some t \<and> t_studentId t = u_id u) (payments d)"
    by (rule listPayments_student)
next
  assume t: "u_role u = Tutor"
  have "set (map p_taskId (payments seed)) \<subseteq> set (map t_id (tasks seed))"
    by (simp add: seed_def)
  from payment_task_ids_run [OF this, of acts]
  have "\<forall>p\<in>set (payments (run seed acts)). task_of (run seed acts) p \<noteq> None"
    by (auto simp: task_of_None_iff)
  then have "filter (\<lambda>p. task_of (run seed acts) p \<noteq> None) (payments (run seed acts))
               = payments (run seed acts)"
    by (simp add: filter_id_conv)
  with listPayments_tutor [OF t, of "run seed acts"]
  show "listPayments u (run seed acts) = payments (run seed acts)" by simp
next
  assume t: "u_role u = Tutor" and r: "\<forall>p\<in>set (payments d). task_of d p \<noteq> None"
  from r have "filter (\<lambda>p. task_of d p \<noteq> None) (payments d) = payments d"
    by (simp add: filter_id_conv)
  with listPayments_tutor [OF t, of d]
  show "listPayments u d = payments d" by simp
qed

theorem listPayments_by_role_witness:
  "u_role ex_student = Student \<and> u_role ex_tutorA = Tutor \<and>
   listPayments ex_student ex_db5
     = filter (\<lambda>p. \<exists>t. task_of ex_db5 p = Some t \<and> t_studentId t = u_id ex_student)
         (payments ex_db5) \<and>
   listPayments ex_student ex_db5 = [ex_payA, ex_payB] \<and>
   listPayments (ex_student\<lparr>u_id := ''u_9''\<rparr>) ex_db5 = [] \<and>
   listPayments ex_tutorA (run seed (take 5 ex_acts)) = [ex_payA, ex_payB] \<and>
   task_of ex_db6 (payments ex_db6 ! 0) \<noteq> None \<and>
   task_of ex_db6 (payments ex_db6 ! 1) \<noteq> None \<and>
   listPayments ex_tutorA ex_db6 = payments ex_db6"
proof -
  have s: "u_role ex_student = Student" and t: "u_role ex_tutorA = Tutor"
    by (simp_all add: ex_defs)
  have v: "listPayments ex_student ex_db5 = [ex_payA, ex_payB]"
    "listPayments (ex_student\<lparr>u_id := ''u_9''\<rparr>) ex_db5 = []"
    by (simp_all add: listPayments_def ex_defs)
  have p: "payments (run seed (take 5 ex_acts)) = [ex_payA, ex_payB]"
    by (simp add: scenario_stores) (simp add: ex_defs)
  have r: "task_of ex_db6 (payments ex_db6 ! 0) \<noteq> None"
    "task_of ex_db6 (payments ex_db6 ! 1) \<noteq> None"
    by (simp_all add: task_of_def ex_defs)
  have a: "\<forall>p\<in>set (payments ex_db6). task_of ex_db6 p \<noteq> None"
    by (simp add: task_of_def ex_defs)
  from listPayments_by_role [of ex_student ex_db5]
    listPayments_by_role [of ex_tutorA ex_db6 "take 5 ex_acts"]
    s t v p r a
  show ?thesis by simp
qed

text \<open>
  C10: a payment whose \<open>taskId\<close> is the id of no task in the store is in nobody's list,
  student or tutor: the filter returns false as soon as \<open>find\<close> returns nothing.
\<close>

theorem dangling_payment_hidden:
  assumes "\<forall>t\<in>set (tasks d). t_id t \<noteq> p_taskId p"
  shows "p \<notin> set (listPayments u d)"
proof -
  from assms have "find (\<lambda>x. t_id x = p_taskId p) (tasks d) = None"
    by (simp add: find_None_iff)
  then show ?thesis by (simp add: listPayments_def)
qed

theorem dangling_payment_hidden_witness:
  "tasks (seed\<lparr>payments := [ex_payA]\<rparr>) = [] \<and>
   ex_payA \<notin> set (listPayments ex_tutorA (seed\<lparr>payments := [ex_payA]\<rparr>)) \<and>
   ex_payA \<notin> set (listPayments ex_student (seed\<lparr>payments := [ex_payA]\<rparr>))"
proof -
  have h: "\<forall>t\<in>set (tasks (seed\<lparr>payments := [ex_payA]\<rparr>)). t_id t \<noteq> p_taskId ex_payA"
    by (simp add: seed_def)
  from dangling_payment_hidden [OF h, of ex_tutorA] dangling_payment_hidden [OF h, of ex_student]
  show ?thesis by (simp add: seed_def)
qed

section \<open>Identifiers\<close>

text \<open>
  C9, as stated: over any sequence of \<open>submit\<close> and \<open>submitBid\<close> calls, distinct tasks have
  distinct ids and distinct bids have distinct ids. An id is a prefix and \<open>Date.now()\<close>:
  two tasks posted in the same millisecond are stored under the same id, and so are two
  bids.
\<close>

theorem same_clock_same_id:
  "map t_id (tasks (run seed [Submit (Some ex_student) ex_form 10,
                               Submit (Some ex_student) (ex_form\<lparr>f_title := ''Other''\<rparr>) 10]))
     = [''t_10'', ''t_10''] \<and>
   map t_title (tasks (run seed [Submit (Some ex_student) ex_form 10,
                               Submit (Some ex_student) (ex_form\<lparr>f_title := ''Other''\<rparr>) 10]))
     = [''Essay help'', ''Other''] \<and>
   map b_id (bids (run seed [SubmitBid (Some ex_tutorA) ex_task (Finite 400) ''can do'' 20 21,
                             SubmitBid (Some ex_tutorB) ex_task (Finite 450) [] 20 21]))
     = [''b_20'', ''b_20''] \<and>
   map b_tutorId (bids (run seed [SubmitBid (Some ex_tutorA) ex_task (Finite 400) ''can do'' 20 21,
                             SubmitBid (Some ex_tutorB) ex_task (Finite 450) [] 20 21]))
     = [''u_2'', ''u_3'']"
  by (simp add: ex_defs handler_defs string_of_nat_examples)

text \<open>
  C9, amended: over every sequence of handler calls from the empty store, the task ids
  are pairwise distinct provided the clock readings of the \<open>submit\<close> calls that save are
  pairwise distinct, and the bid ids are pairwise distinct provided the first clock
  readings of the \<open>submitBid\<close> calls that save are; nothing else keeps two ids apart.
\<close>

theorem ids_unique_by_clock:
  "(distinct (concat (map posted acts)) \<longrightarrow> distinct (map t_id (tasks (run seed acts)))) \<and>
   (distinct (concat (map placed acts)) \<longrightarrow> distinct (map b_id (bids (run seed acts))))"
proof (rule conjI)
  show "distinct (concat (map posted acts)) \<longrightarrow> distinct (map t_id (tasks (run seed acts)))"
  proof
    assume "distinct (concat (map posted acts))"
    then have "distinct (map (\<lambda>n. ''t_'' @ string_of_nat n) (concat (map posted acts)))"
      using prefixed_inj [of "''t_''"] by (simp add: distinct_map inj_on_def inj_def)
    then show "distinct (map t_id (tasks (run seed acts)))"
      by (simp add: task_ids_run seed_def)
  qed
next
  show "distinct (concat (map placed acts)) \<longrightarrow> distinct (map b_id (bids (run seed acts)))"
  proof
    assume "distinct (concat (map placed acts))"
    then have "distinct (map (\<lambda>n. ''b_'' @ string_of_nat n) (concat (map placed acts)))"
      using prefixed_inj [of "''b_''"] by (simp add: distinct_map inj_on_def inj_def)
    then show "distinct (map b_id (bids (run seed acts)))"
      by (simp add: bid_ids_run seed_def)
  qed
qed

theorem ids_unique_by_clock_witness:
  "concat (map posted ex_acts) = [10] \<and> concat (map placed ex_acts) = [20, 30] \<and>
   map t_id (tasks (run seed ex_acts)) = [''t_10''] \<and>
   map b_id (bids (run seed ex_acts)) = [''b_20'', ''b_30''] \<and>
   distinct (map t_id (tasks (run seed ex_acts))) \<and>
   distinct (map b_id (bids (run seed ex_acts)))"
proof -
  have c: "concat (map posted ex_acts) = [10]" "concat (map placed ex_acts) = [20, 30]"
    by (simp_all add: ex_defs)
  have v: "map t_id (tasks (run seed ex_acts)) = [''t_10'']"
    "map b_id (bids (run seed ex_acts)) = [''b_20'', ''b_30'']"
    by (simp_all add: scenario_stores) (simp_all add: ex_defs)
  from c have "distinct (concat (map posted ex_acts))" "distinct (concat (map placed ex_acts))"
    by simp_all
  with ids_unique_by_clock [of ex_acts] c v show ?thesis by blast
qed

end
